theory Spec2Isabelle
  imports Complex_Main "HOL-Library.Log_Nat" "HOL-Library.Char_ord" "HOL-Library.AList"
    "HOL-Library.Word" "HOL-Library.Monad_Syntax"
begin

section \<open>Strings and character classes\<close>

text \<open>
  A JavaScript string is modelled as the list of its code units, for code units below 256
  (\<^typ>\<open>string\<close>).  The character classes are the ones the regular expressions of the worker
  use without the \<open>u\<close> and \<open>i\<close> flags: \<open>\w\<close> is \<open>[A-Za-z0-9_]\<close>, \<open>\d\<close> is \<open>[0-9]\<close>, and
  \<open>\s\<close> (which is also what \<open>String.prototype.trim\<close> strips) is tab, line feed, vertical tab,
  form feed, carriage return, space and no-break space.
\<close>

definition is_upper :: "char \<Rightarrow> bool" where
  "is_upper c = (CHR ''A'' \<le> c \<and> c \<le> CHR ''Z'')"

definition is_lower :: "char \<Rightarrow> bool" where
  "is_lower c = (CHR ''a'' \<le> c \<and> c \<le> CHR ''z'')"

definition is_digit :: "char \<Rightarrow> bool" where
  "is_digit c = (CHR ''0'' \<le> c \<and> c \<le> CHR ''9'')"

definition is_alpha :: "char \<Rightarrow> bool" where
  "is_alpha c = (is_upper c \<or> is_lower c)"

definition is_word :: "char \<Rightarrow> bool" where
  "is_word c = (is_alpha c \<or> is_digit c \<or> c = CHR ''_'')"

definition is_space :: "char \<Rightarrow> bool" where
  "is_space c = (c \<in> set [CHR 0x09, CHR 0x0A, CHR 0x0B, CHR 0x0C, CHR 0x0D, CHR 0x20, CHR 0xA0])"

definition is_us :: "char \<Rightarrow> bool" where
  "is_us c = (c = CHR ''_'')"

text \<open>\<open>s.trim()\<close>: the leading and the trailing run of white space are dropped.\<close>

definition trim :: "string \<Rightarrow> string" where
  "trim s = rev (dropWhile is_space (rev (dropWhile is_space s)))"

section \<open>Key normalisation\<close>

text \<open>
  \<^verbatim>\<open>
  function normalizeColumnName(name) {
    return name.toString().trim().replace(/\W|^(?=\d)/g, '_').replace(/^_+|_+$/g, '') || 'col';
  }
  \<close>
  The first \<open>replace\<close> turns every code unit outside \<open>\w\<close> into an underscore; its second
  alternative matches the empty string at position 0 in front of a digit (only there, and
  only when the first alternative did not match), which puts one underscore in front of a
  leading digit.  The second \<open>replace\<close> deletes the run of underscores at the start and the
  run at the end.  The empty string is falsy, so \<open>||\<close> yields \<open>'col'\<close> for it.
\<close>

definition replace_nonword :: "string \<Rightarrow> string" where
  "replace_nonword s =
     (case s of
        [] \<Rightarrow> []
      | c # cs \<Rightarrow> (if is_digit c then ''_'' else []) @ map (\<lambda>x. if is_word x then x else CHR ''_'') s)"

definition strip_underscores :: "string \<Rightarrow> string" where
  "strip_underscores s = rev (dropWhile is_us (rev (dropWhile is_us s)))"

definition normalizeColumnName :: "string \<Rightarrow> string" where
  "normalizeColumnName name =
     (let r = strip_underscores (replace_nonword (trim name))
      in if r = [] then ''col'' else r)"


text \<open>
  The shape of every result of the normalisation: word characters only, at least one, and
  no underscore at either end.
\<close>

definition normal_key :: "string \<Rightarrow> bool" where
  "normal_key r = (r \<noteq> [] \<and> list_all is_word r \<and> \<not> is_us (hd r) \<and> \<not> is_us (last r))"

section \<open>JavaScript values\<close>

text \<open>
  The values that cross the worker are JSON values (the recipients are the result of
  \<open>JSON.parse\<close>), \<open>undefined\<close>, and the native functions that a plain object inherits from
  \<open>Object.prototype\<close>.  A number is a sign and a magnitude of 53 bits: the integers that
  binary64 holds exactly and prints in plain decimal notation, with \<open>-0\<close>.  An object is the
  list of its own properties in the order of \<open>Object.entries\<close>, each key once; none of
  them is callable, since \<open>JSON.parse\<close> makes no functions.
\<close>

datatype jsval =
    JUndefined
  | JNull
  | JBool bool
  | JNum bool "53 word"
  | JStr string
  | JArr "jsval list"
  | JObj "(string \<times> jsval) list"
  | JFun string

text \<open>Truthiness, as \<open>||\<close>, \<open>!\<close> and \<open>? :\<close> test it.\<close>

fun truthy :: "jsval \<Rightarrow> bool" where
  "truthy JUndefined = False"
| "truthy JNull = False"
| "truthy (JBool b) = b"
| "truthy (JNum neg m) = (m \<noteq> 0)"
| "truthy (JStr s) = (s \<noteq> [])"
| "truthy (JArr xs) = True"
| "truthy (JObj ps) = True"
| "truthy (JFun f) = True"

definition js_or :: "jsval \<Rightarrow> jsval \<Rightarrow> jsval" where
  "js_or a b = (if truthy a then a else b)"

fun show_nat :: "nat \<Rightarrow> string" where
  "show_nat n =
     (if n < 10 then [char_of (48 + n)]
      else show_nat (n div 10) @ [char_of (48 + n mod 10)])"

declare show_nat.simps [simp del]

definition show_num :: "bool \<Rightarrow> 53 word \<Rightarrow> string" where
  "show_num neg m = (if neg \<and> m \<noteq> 0 then ''-'' else []) @ show_nat (unat m)"

fun join_comma :: "string list \<Rightarrow> string" where
  "join_comma [] = []"
| "join_comma [x] = x"
| "join_comma (x # y # ys) = x @ '','' @ join_comma (y # ys)"

text \<open>
  \<open>String(v)\<close>, which is also the conversion \<open>RegExp.prototype.test\<close> applies to its
  argument.  The result \<open>None\<close> stands for a thrown \<open>TypeError\<close>: an object is converted by
  its \<open>toString\<close> and then its \<open>valueOf\<close>; an own \<open>toString\<close> property hides the inherited
  function and is not callable, and \<open>valueOf\<close> (own, not callable, or inherited, returning
  the object) gives no primitive either.  Without an own \<open>toString\<close> the inherited one
  prints \<open>[object Object]\<close>.  An array joins the conversions of its elements with commas,
  \<open>null\<close> and \<open>undefined\<close> elements printing as nothing; a native function prints in the
  form V8 gives it.
\<close>

fun to_string :: "jsval \<Rightarrow> string option" where
  "to_string JUndefined = Some ''undefined''"
| "to_string JNull = Some ''null''"
| "to_string (JBool b) = Some (if b then ''true'' else ''false'')"
| "to_string (JNum neg m) = Some (show_num neg m)"
| "to_string (JStr s) = Some s"
| "to_string (JArr xs) =
     map_option join_comma
       (those (map (\<lambda>x. if x = JNull \<or> x = JUndefined then Some [] else to_string x) xs))"
| "to_string (JObj ps) =
     (if ''toString'' \<in> set (map fst ps) then None else Some ''[object Object]'')"
| "to_string (JFun f) = Some (''function '' @ f @ ''() { [native code] }'')"

text \<open>The message V8 gives the \<open>TypeError\<close> of a failed conversion.\<close>

definition type_error_message :: string where
  "type_error_message = ''Cannot convert object to primitive value''"

text \<open>
  Property reads.  A plain object (an object literal, or an object made by \<open>JSON.parse\<close>)
  has \<open>Object.prototype\<close> as its prototype, so a key that is not an own property is looked
  up there before the read gives \<open>undefined\<close>.
\<close>

definition object_prototype :: "string \<Rightarrow> jsval" where
  "object_prototype k =
     (if k = ''constructor'' then JFun ''Object''
      else if k \<in> set [''__defineGetter__'', ''__defineSetter__'', ''hasOwnProperty'',
                        ''__lookupGetter__'', ''__lookupSetter__'', ''isPrototypeOf'',
                        ''propertyIsEnumerable'', ''toString'', ''valueOf'', ''toLocaleString'']
      then JFun k
      else if k = ''__proto__'' then JObj []
      else JUndefined)"

definition obj_get :: "(string \<rightharpoonup> jsval) \<Rightarrow> string \<Rightarrow> jsval" where
  "obj_get own k = (case own k of Some v \<Rightarrow> v | None \<Rightarrow> object_prototype k)"

text \<open>
  \<open>recipient?.Email\<close> and \<open>recipient?.email\<close>: \<open>undefined\<close> for \<open>null\<close> and \<open>undefined\<close>, a
  property read for an object.  For the other values only these two keys are read, and no
  prototype of a primitive or of an array has either.
\<close>

fun get_prop :: "jsval \<Rightarrow> string \<Rightarrow> jsval" where
  "get_prop (JObj ps) k = obj_get (map_of ps) k"
| "get_prop v k = JUndefined"

text \<open>
  \<open>Object.entries(recipient)\<close>.  It is evaluated only after an address was read from the
  recipient, that is, for an object.
\<close>

fun entries :: "jsval \<Rightarrow> (string \<times> jsval) list" where
  "entries (JObj ps) = ps"
| "entries v = []"

section \<open>Address validation\<close>

text \<open>
  \<^verbatim>\<open>
  function isValidEmail(email) {
    return /^[a-zA-Z0-9._%+-]+@[a-zA-Z0-9.-]+\.[a-zA-Z]{2,}$/.test(email || '');
  }
  \<close>
  The first class has no \<open>@\<close>, so the local part is the longest prefix in that class and
  the next code unit must be \<open>@\<close>.  The last group has letters only and follows a dot, so
  it is the longest suffix of letters; what lies between \<open>@\<close> and that dot must be a
  non-empty run of the second class.  \<open>test\<close> converts its argument to a string first, and
  the function throws when that conversion does (\<open>None\<close>).
\<close>

definition is_local_char :: "char \<Rightarrow> bool" where
  "is_local_char c = (is_alpha c \<or> is_digit c \<or> c \<in> set ''._%+-'')"

definition is_domain_char :: "char \<Rightarrow> bool" where
  "is_domain_char c = (is_alpha c \<or> is_digit c \<or> c \<in> set ''.-'')"

definition email_regex_test :: "string \<Rightarrow> bool" where
  "email_regex_test s =
     (let local = takeWhile is_local_char s;
          rest = dropWhile is_local_char s
      in local \<noteq> [] \<and>
         (case rest of
            [] \<Rightarrow> False
          | c # r \<Rightarrow>
              c = CHR ''@'' \<and>
              (let tld = rev (takeWhile is_alpha (rev r));
                   pre = rev (dropWhile is_alpha (rev r))
               in 2 \<le> length tld \<and> pre \<noteq> [] \<and> last pre = CHR ''.'' \<and>
                  butlast pre \<noteq> [] \<and> list_all is_domain_char (butlast pre))))"

definition isValidEmail :: "jsval \<Rightarrow> bool option" where
  "isValidEmail email = map_option email_regex_test (to_string (js_or email (JStr [])))"


section \<open>Template renderer\<close>

text \<open>
  \<^verbatim>\<open>
  function processTemplate(tmpl, ctx) {
    if (typeof tmpl !== 'string') return '';
    return tmpl.replace(/{{\s*([\w\s.-]+?)\s*}}/g, (m, p1) => {
      const key = normalizeColumnName(p1.trim());
      return ctx[key] != null ? String(ctx[key]) : m; // leave placeholder if missing
    });
  }
  \<close>
  A match at a position starts with two opening braces.  Everything the pattern allows
  between the braces lies in the class \<open>[\w\s.-]\<close>, which has no closing brace, so the text
  between them is the longest run of that class; it must be non-empty and the two closing
  braces must follow it.  The group is lazy and the white space around it greedy: the
  group captures the run without its leading and trailing white space, or, when the run
  is white space only, its last code unit.  \<open>String(ctx[key])\<close> can throw; the exception
  leaves \<open>replace\<close> and \<open>processTemplate\<close> (\<open>None\<close>).
\<close>

definition is_key_char :: "char \<Rightarrow> bool" where
  "is_key_char c = (is_word c \<or> is_space c \<or> c = CHR ''.'' \<or> c = CHR ''-'')"

definition capture :: "string \<Rightarrow> string" where
  "capture body = (if list_all is_space body then [last body] else trim body)"

text \<open>The match at the head of \<open>s\<close>, if any: the matched text, the group, the rest.\<close>

definition match_placeholder :: "string \<Rightarrow> (string \<times> string \<times> string) option" where
  "match_placeholder s =
     (if take 2 s = ''{{'' then
        (let body = takeWhile is_key_char (drop 2 s);
             after = dropWhile is_key_char (drop 2 s)
         in if body \<noteq> [] \<and> take 2 after = ''}}''
            then Some (''{{'' @ body @ ''}}'', capture body, drop 2 after)
            else None)
      else None)"

lemma match_placeholder_shorter:
  assumes "match_placeholder s = Some (m, p1, rest)"
  shows "length rest < length s"
proof -
  from assms have t: "take 2 s = ''{{''"
    by (auto simp: match_placeholder_def split: if_splits)
  from assms have "rest = drop 2 (dropWhile is_key_char (drop 2 s))"
    by (auto simp: match_placeholder_def Let_def split: if_splits)
  moreover have "length (dropWhile is_key_char (drop 2 s)) \<le> length (drop 2 s)"
    by (rule length_dropWhile_le)
  ultimately have "length rest \<le> length s - 2" by simp
  moreover have "length (take 2 s) = 2" using t by simp
  ultimately show ?thesis by simp
qed

text \<open>
  \<open>String.prototype.replace\<close> with a global pattern and a replacement function: the string
  is scanned from the left; where the pattern matches, the function's result replaces the
  match and the scan goes on behind it; elsewhere the code unit is copied.
\<close>

function replace_placeholders ::
  "(string \<Rightarrow> string \<Rightarrow> string option) \<Rightarrow> string \<Rightarrow> string option" where
  "replace_placeholders f [] = Some []"
| "replace_placeholders f (c # cs) =
     (case match_placeholder (c # cs) of
        Some (m, p1, rest) \<Rightarrow>
          (case f m p1 of
             None \<Rightarrow> None
           | Some v \<Rightarrow> map_option (\<lambda>out. v @ out) (replace_placeholders f rest))
      | None \<Rightarrow> map_option (\<lambda>out. c # out) (replace_placeholders f cs))"
  by pat_completeness auto
termination
  by (relation "measure (\<lambda>(f, s). length s)") (auto dest: match_placeholder_shorter)

definition substitute :: "(string \<rightharpoonup> jsval) \<Rightarrow> string \<Rightarrow> string \<Rightarrow> string option" where
  "substitute ctx m p1 =
     (let key = normalizeColumnName (trim p1);
          v = obj_get ctx key
      in if v \<noteq> JNull \<and> v \<noteq> JUndefined then to_string v else Some m)"

fun processTemplate :: "jsval \<Rightarrow> (string \<rightharpoonup> jsval) \<Rightarrow> string option" where
  "processTemplate (JStr tmpl) ctx = replace_placeholders (substitute ctx) tmpl"
| "processTemplate v ctx = Some []"

text \<open>
  \<open>const ctx = {}; for (const [k, v] of Object.entries(recipient)) ctx[normalizeColumnName(k)] = v;\<close>
  The context is a plain object, given here by its own properties.
\<close>

definition build_ctx :: "(string \<times> jsval) list \<Rightarrow> (string \<rightharpoonup> jsval)" where
  "build_ctx kvs = foldl (\<lambda>ctx (k, v). ctx(normalizeColumnName k \<mapsto> v)) Map.empty kvs"


section \<open>Number arithmetic\<close>

text \<open>
  JavaScript numbers are IEEE 754 binary64 values, and \<open>/\<close> and \<open>*\<close> round the exact result
  to the nearest such value, ties to the even significand.  The values met here are
  quotients of counters and their products with 100, all far inside the normal range, so
  a number is modelled by the rational it denotes and rounding keeps 53 significant bits.
\<close>

definition pow2 :: "int \<Rightarrow> rat" where
  "pow2 k = (if 0 \<le> k then 2 ^ nat k else 1 / 2 ^ nat (- k))"

definition round_half_even :: "rat \<Rightarrow> int" where
  "round_half_even x =
     (let f = \<lfloor>x\<rfloor>; d = x - of_int f
      in if d < 1 / 2 then f
         else if 1 / 2 < d then f + 1
         else if even f then f else f + 1)"

text \<open>The exponent \<open>e\<close> with \<open>2^e \<le> x < 2^(e+1)\<close>, for positive \<open>x\<close>.\<close>

definition binade :: "rat \<Rightarrow> int" where
  "binade x =
     (let (a, b) = quotient_of x; k = bitlen a - bitlen b
      in if pow2 k \<le> x then k else k - 1)"

definition fl :: "rat \<Rightarrow> rat" where
  "fl x =
     (if x = 0 then 0
      else (let s = pow2 (52 - binade \<bar>x\<bar>)
            in sgn x * of_int (round_half_even (\<bar>x\<bar> * s)) / s))"

definition js_div :: "rat \<Rightarrow> rat \<Rightarrow> rat" where
  "js_div x y = fl (x / y)"

definition js_mul :: "rat \<Rightarrow> rat \<Rightarrow> rat" where
  "js_mul x y = fl (x * y)"

section \<open>The job record and the Durable Object\<close>

record failure =
  fail_i :: nat
  fail_email :: jsval
  fail_error :: string

record job =
  job_id :: string
  created :: nat
  total :: nat
  recipients :: "jsval list"
  processed :: nat
  success :: nat
  failed :: nat
  failures :: "failure list"
  interval :: nat
  subjectTmpl :: jsval
  htmlTmpl :: jsval
  fromEmailTmpl :: jsval
  fromNameTmpl :: jsval
  in_progress :: bool
  current :: jsval
  last_tick :: nat

record payload =
  to :: "jsval list"
  sender :: jsval
  subject :: string
  html_body :: string
  api_key :: jsval

text \<open>The bindings of the worker (\<open>env\<close>); an unset binding reads as \<open>undefined\<close>.\<close>

record env =
  SMTP2GO_API_KEY :: "string option"
  DEFAULT_SENDER_EMAIL :: "string option"
  DEFAULT_SENDER_NAME :: "string option"

definition binding :: "string option \<Rightarrow> jsval" where
  "binding b = (case b of None \<Rightarrow> JUndefined | Some s \<Rightarrow> JStr s)"

text \<open>
  What the platform and the network do during one invocation of a handler:
  \<open>date_now k\<close> is the value of the \<open>k\<close>-th call of \<open>Date.now()\<close> (counted from 0),
  \<open>put_ok\<close> tells whether \<open>storage.put\<close> resolves (it rejects otherwise), and
  \<open>transport\<close> is the HTTP exchange with the mail service: \<open>Inr ()\<close> when it answers with
  a success status, \<open>Inl msg\<close> when \<open>fetchSMTP2GO\<close> throws an \<open>Error\<close> with message \<open>msg\<close>
  (a network failure, or the message built from an error status).  Reads of the storage
  and \<open>setAlarm\<close> are taken to resolve.
\<close>

record host =
  date_now :: "nat \<Rightarrow> nat"
  put_ok :: bool
  transport :: "payload \<Rightarrow> string + unit"

text \<open>
  \<^verbatim>\<open>
  async function fetchSMTP2GO(env, payload) {
    ...
    if (!env.SMTP2GO_API_KEY) throw new Error('Missing SMTP2GO_API_KEY');
    payload.api_key = env.SMTP2GO_API_KEY;
    const res = await fetch(apiUrl, ...);
    ...
  }
  \<close>
\<close>

definition fetchSMTP2GO :: "env \<Rightarrow> host \<Rightarrow> payload \<Rightarrow> string + unit" where
  "fetchSMTP2GO e h p =
     (if \<not> truthy (binding (SMTP2GO_API_KEY e)) then Inl ''Missing SMTP2GO_API_KEY''
      else transport h (p\<lparr>api_key := binding (SMTP2GO_API_KEY e)\<rparr>))"

text \<open>
  The state of one Durable Object: the value stored under the key \<open>'job'\<close> and the armed
  alarm.  A handler yields the effects it had, in order, the state it leaves, whether it
  ended by an exception (a rejected \<open>storage.put\<close>, or a \<open>TypeError\<close> thrown outside a
  \<open>try\<close>), and the response it returned.
\<close>

record do_state =
  stored_job :: "job option"
  alarm_at :: "nat option"

definition idle :: do_state where
  "idle = \<lparr>stored_job = None, alarm_at = None\<rparr>"

datatype event =
    is_Put: Put (put_job: job)
  | is_SetAlarm: SetAlarm (alarm_time: nat)
  | is_Dispatch: Dispatch (dispatched: payload)

datatype exn = PutRejected | TypeError

text \<open>
  The values of the properties of the objects handed to \<open>json\<close>: the fields of the job
  record as they are, and the computed percentage.
\<close>

datatype field =
    FNum nat
  | FInt int
  | FBool bool
  | FStr string
  | FVal jsval
  | FVals "jsval list"
  | FLedger "failure list"

datatype response = Json "(string \<times> field) list" nat

record result =
  events :: "event list"
  state :: do_state
  raised :: "exn option"
  reply :: "response option"

record init_request =
  req_id :: string
  req_recipients :: "jsval list"
  req_subjectTmpl :: jsval
  req_htmlTmpl :: jsval
  req_interval :: nat
  req_fromEmailTmpl :: jsval
  req_fromNameTmpl :: jsval

subsection \<open>init\<close>

definition new_job :: "host \<Rightarrow> init_request \<Rightarrow> job" where
  "new_job h req =
     \<lparr>job_id = req_id req,
      created = date_now h 0,
      total = length (req_recipients req),
      recipients = req_recipients req,
      processed = 0,
      success = 0,
      failed = 0,
      failures = [],
      interval = req_interval req,
      subjectTmpl = req_subjectTmpl req,
      htmlTmpl = req_htmlTmpl req,
      fromEmailTmpl = req_fromEmailTmpl req,
      fromNameTmpl = req_fromNameTmpl req,
      in_progress = True,
      current = JStr ''Initializing...'',
      last_tick = 0\<rparr>"

definition init :: "host \<Rightarrow> init_request \<Rightarrow> do_state \<Rightarrow> result" where
  "init h req st =
     (let job = new_job h req
      in if put_ok h then
           (let t = date_now h 1 + req_interval req * 1000
            in \<lparr>events = [Put job, SetAlarm t],
                state = st\<lparr>stored_job := Some job, alarm_at := Some t\<rparr>,
                raised = None,
                reply = Some (Json [(''ok'', FBool True)] 200)\<rparr>)
         else \<lparr>events = [], state = st, raised = Some PutRejected, reply = None\<rparr>)"

subsection \<open>status\<close>

text \<open>The own properties of the stored job, as the spread \<open>{ ...job }\<close> copies them.\<close>

definition spread :: "job \<Rightarrow> (string \<times> field) list" where
  "spread j =
     [(''id'', FStr (job_id j)),
      (''created'', FNum (created j)),
      (''total'', FNum (total j)),
      (''recipients'', FVals (recipients j)),
      (''processed'', FNum (processed j)),
      (''success'', FNum (success j)),
      (''failed'', FNum (failed j)),
      (''failures'', FLedger (failures j)),
      (''interval'', FNum (interval j)),
      (''subjectTmpl'', FVal (subjectTmpl j)),
      (''htmlTmpl'', FVal (htmlTmpl j)),
      (''fromEmailTmpl'', FVal (fromEmailTmpl j)),
      (''fromNameTmpl'', FVal (fromNameTmpl j)),
      (''in_progress'', FBool (in_progress j)),
      (''current'', FVal (current j)),
      (''last_tick'', FNum (last_tick j))]"

text \<open>
  \<open>job.total ? Math.floor((job.processed / job.total) * 100) : 0\<close>
\<close>

definition completion_percentage :: "job \<Rightarrow> int" where
  "completion_percentage j =
     (if total j \<noteq> 0
      then \<lfloor>js_mul (js_div (of_nat (processed j)) (of_nat (total j))) 100\<rfloor>
      else 0)"

definition status :: "do_state \<Rightarrow> response \<times> do_state" where
  "status st =
     (case stored_job st of
        None \<Rightarrow> (Json [(''error'', FStr ''Missing'')] 404, st)
      | Some j \<Rightarrow>
          (let copy = AList.delete ''recipients'' (spread j);
               copy = AList.update ''completion_percentage'' (FInt (completion_percentage j)) copy
           in (Json copy 200, st)))"

subsection \<open>alarm\<close>

text \<open>
  The part of \<open>alarm\<close> between the completion guard and the write: the recipient under the
  cursor is resolved, validated and, when valid, rendered and handed to \<open>fetchSMTP2GO\<close>;
  the counters and the ledger are updated on the in-memory record.  A read past the end
  of the array gives \<open>undefined\<close>.

  \<open>isValidEmail\<close> is called outside the \<open>try\<close>: when it throws, the exception leaves
  \<open>alarm\<close> (\<open>Inl TypeError\<close>).  The rendering is inside the \<open>try\<close>: when it throws, the
  \<open>catch\<close> block records a failure with the message of the exception and
  \<open>fetchSMTP2GO\<close> is not called.
\<close>

definition resolve_email :: "jsval \<Rightarrow> jsval" where
  "resolve_email recipient =
     js_or (get_prop recipient ''Email'') (js_or (get_prop recipient ''email'') (JStr []))"

text \<open>
  The statements of the \<open>try\<close> block up to the payload, in their order; each conversion
  to a string can throw (\<open>None\<close>), also the two of the template literal.
\<close>

definition sender_part :: "jsval \<Rightarrow> (string \<rightharpoonup> jsval) \<Rightarrow> string option \<Rightarrow> jsval option" where
  "sender_part tmpl ctx dflt =
     (if truthy tmpl then map_option JStr (processTemplate tmpl ctx) else Some (binding dflt))"

definition build_payload :: "env \<Rightarrow> job \<Rightarrow> jsval \<Rightarrow> jsval \<Rightarrow> payload option" where
  "build_payload e j recipient emailAddress =
     (let ctx = build_ctx (entries recipient)
      in do {
           subject \<leftarrow> processTemplate (subjectTmpl j) ctx;
           html_body \<leftarrow> processTemplate (htmlTmpl j) ctx;
           senderEmail \<leftarrow> sender_part (fromEmailTmpl j) ctx (DEFAULT_SENDER_EMAIL e);
           senderName \<leftarrow> sender_part (fromNameTmpl j) ctx (DEFAULT_SENDER_NAME e);
           senderVal \<leftarrow>
             (if truthy senderName
              then do {
                     n \<leftarrow> to_string senderName;
                     m \<leftarrow> to_string senderEmail;
                     Some (JStr (n @ '' <'' @ m @ ''>''))
                   }
              else Some senderEmail);
           Some \<lparr>to = [emailAddress], sender = senderVal, subject = subject,
                  html_body = html_body, api_key = JUndefined\<rparr>
         })"

definition process_recipient :: "env \<Rightarrow> host \<Rightarrow> job \<Rightarrow> exn + event list \<times> job" where
  "process_recipient e h j =
     (let idx = processed j;
          recipient = (if idx < length (recipients j) then recipients j ! idx else JUndefined);
          emailAddress = resolve_email recipient
      in case isValidEmail emailAddress of
           None \<Rightarrow> Inl TypeError
         | Some valid \<Rightarrow>
             (let (evs, j1) =
                (if \<not> valid then
                   ([], j\<lparr>failed := failed j + 1,
                           failures := failures j @
                             [\<lparr>fail_i = idx, fail_email = js_or emailAddress (JStr ''(missing)''),
                               fail_error = ''Invalid email''\<rparr>]\<rparr>)
                 else
                   (case build_payload e j recipient emailAddress of
                      None \<Rightarrow>
                        ([], j\<lparr>failed := failed j + 1,
                                failures := failures j @
                                  [\<lparr>fail_i = idx, fail_email = emailAddress,
                                    fail_error = take 180 type_error_message\<rparr>]\<rparr>)
                    | Some p \<Rightarrow>
                        (case fetchSMTP2GO e h p of
                           Inr u \<Rightarrow> ([Dispatch p], j\<lparr>success := success j + 1\<rparr>)
                         | Inl msg \<Rightarrow>
                             ([Dispatch p],
                              j\<lparr>failed := failed j + 1,
                                failures := failures j @
                                  [\<lparr>fail_i = idx, fail_email = emailAddress,
                                    fail_error = take 180 msg\<rparr>]\<rparr>))))
              in Inr (evs, j1\<lparr>processed := processed j1 + 1,
                               current := js_or emailAddress (JStr ''N/A'')\<rparr>)))"

definition alarm :: "env \<Rightarrow> host \<Rightarrow> do_state \<Rightarrow> result" where
  "alarm e h st =
     (case stored_job st of
        None \<Rightarrow> \<lparr>events = [], state = st, raised = None, reply = None\<rparr>
      | Some j \<Rightarrow>
          if \<not> in_progress j then \<lparr>events = [], state = st, raised = None, reply = None\<rparr>
          else if total j \<le> processed j then
            (let j' = j\<lparr>in_progress := False\<rparr>
             in if put_ok h
                then \<lparr>events = [Put j'], state = st\<lparr>stored_job := Some j'\<rparr>,
                      raised = None, reply = None\<rparr>
                else \<lparr>events = [], state = st, raised = Some PutRejected, reply = None\<rparr>)
          else
            (case process_recipient e h j of
               Inl x \<Rightarrow> \<lparr>events = [], state = st, raised = Some x, reply = None\<rparr>
             | Inr (evs, j') \<Rightarrow>
                 if put_ok h then
                   (if processed j' < total j' then
                      (let t = date_now h 0 + interval j' * 1000
                       in \<lparr>events = evs @ [Put j', SetAlarm t],
                           state = st\<lparr>stored_job := Some j', alarm_at := Some t\<rparr>,
                           raised = None, reply = None\<rparr>)
                    else \<lparr>events = evs @ [Put j'], state = st\<lparr>stored_job := Some j'\<rparr>,
                          raised = None, reply = None\<rparr>)
                 else \<lparr>events = evs, state = st, raised = Some PutRejected, reply = None\<rparr>))"

text \<open>
  A tick: the platform delivers the alarm, which disarms it, and runs the handler.  A run
  of ticks gives each tick its own behaviour of the platform and the network; a delivery
  that the platform repeats after an exception is one more tick of the run.
\<close>

definition fire :: "env \<Rightarrow> host \<Rightarrow> do_state \<Rightarrow> result" where
  "fire e h st = alarm e h (st\<lparr>alarm_at := None\<rparr>)"

fun ticks :: "env \<Rightarrow> host list \<Rightarrow> do_state \<Rightarrow> do_state" where
  "ticks e [] st = st"
| "ticks e (h # hs) st = ticks e hs (state (fire e h st))"


subsection \<open>Invariant and scenario data\<close>

text \<open>The counters of a job add up and the cursor stays inside the recipient list.\<close>

definition job_inv :: "job \<Rightarrow> bool" where
  "job_inv j = (processed j = success j + failed j \<and> processed j \<le> total j)"

text \<open>
  A campaign request with the templates of Scenario A for a given recipient list, bindings
  with an API key and a default sender, a platform on which every write resolves and the
  mail service accepts every message, and one on which the write is rejected.
\<close>

definition campaign :: "jsval list \<Rightarrow> init_request" where
  "campaign rs =
     \<lparr>req_id = ''job-1'', req_recipients = rs, req_subjectTmpl = JStr ''Hi'',
      req_htmlTmpl = JStr ''Hello {{Email}}'', req_interval = 1,
      req_fromEmailTmpl = JStr [], req_fromNameTmpl = JStr []\<rparr>"

definition env0 :: env where
  "env0 = \<lparr>SMTP2GO_API_KEY = Some ''key'', DEFAULT_SENDER_EMAIL = Some ''sender@x.com'',
           DEFAULT_SENDER_NAME = None\<rparr>"

definition host_ok :: host where
  "host_ok = \<lparr>date_now = (\<lambda>k. 0), put_ok = True, transport = (\<lambda>p. Inr ())\<rparr>"

definition host_down :: host where
  "host_down = \<lparr>date_now = (\<lambda>k. 0), put_ok = False, transport = (\<lambda>p. Inr ())\<rparr>"


text \<open>The keys of the object a response carries.\<close>

fun view_keys :: "response \<Rightarrow> string list" where
  "view_keys (Json ps c) = map fst ps"

section \<open>Properties of the key normalisation\<close>

lemma word_not_space: "is_word c \<Longrightarrow> \<not> is_space c"
  by (auto simp: is_word_def is_alpha_def is_upper_def is_lower_def is_digit_def is_space_def
      less_eq_char_def)

lemma dropWhile_hd_id: "xs \<noteq> [] \<Longrightarrow> \<not> P (hd xs) \<Longrightarrow> dropWhile P xs = xs"
  by (cases xs) auto

lemma strip_both_id:
  assumes "xs \<noteq> []" "\<not> P (hd xs)" "\<not> P (last xs)"
  shows "rev (dropWhile P (rev (dropWhile P xs))) = xs"
proof -
  have "dropWhile P xs = xs" using assms by (simp add: dropWhile_hd_id)
  moreover have "dropWhile P (rev xs) = rev xs"
    using assms by (simp add: dropWhile_hd_id hd_rev)
  ultimately show ?thesis by simp
qed

lemma strip_both_ends:
  assumes "rev (dropWhile P (rev (dropWhile P xs))) = r" "r \<noteq> []"
  shows "\<not> P (hd r) \<and> \<not> P (last r)"
proof -
  let ?d = "dropWhile P xs"
  let ?e = "dropWhile P (rev ?d)"
  have e: "?e \<noteq> []" using assms by auto
  then have "\<not> P (hd ?e)" by (rule hd_dropWhile)
  then have l: "\<not> P (last r)" using assms e by (metis last_rev rev_rev_ident)
  have d: "?d \<noteq> []" using e by (cases "dropWhile P xs") simp_all
  then have hd: "\<not> P (hd ?d)" by (rule hd_dropWhile)
  obtain ys where ys: "rev ?d = ys @ ?e"
    by (metis takeWhile_dropWhile_id)
  then have "?d = rev ?e @ rev ys" by (metis rev_append rev_rev_ident)
  then have "hd ?d = hd (rev ?e)" using e by (metis hd_append2 rev_is_Nil_conv)
  then show ?thesis using hd l assms by auto
qed

lemma replace_nonword_word: "list_all is_word (replace_nonword s)"
  by (cases s) (auto simp: replace_nonword_def list_all_iff is_word_def)

lemma strip_underscores_subset: "set (strip_underscores s) \<subseteq> set s"
  unfolding strip_underscores_def
  by (metis set_dropWhileD set_rev subsetI)

lemma normalize_normal: "normal_key (normalizeColumnName k)"
proof (cases "strip_underscores (replace_nonword (trim k)) = []")
  case True
  then have "normalizeColumnName k = ''col''" by (simp add: normalizeColumnName_def)
  then show ?thesis
    by (simp add: normal_key_def is_word_def is_alpha_def is_lower_def is_us_def less_eq_char_def)
next
  case False
  let ?r = "strip_underscores (replace_nonword (trim k))"
  have n: "normalizeColumnName k = ?r" using False by (simp add: normalizeColumnName_def Let_def)
  have "list_all is_word ?r"
    using replace_nonword_word [of "trim k"] strip_underscores_subset [of "replace_nonword (trim k)"]
    by (auto simp: list_all_iff)
  moreover have "\<not> is_us (hd ?r) \<and> \<not> is_us (last ?r)"
    using strip_both_ends [of is_us "replace_nonword (trim k)" ?r] False
    by (simp add: strip_underscores_def)
  ultimately show ?thesis using False n by (simp add: normal_key_def)
qed

lemma normalize_fixes_normal:
  assumes "normal_key r"
  shows "normalizeColumnName r = r"
proof -
  from assms have ne: "r \<noteq> []" and w: "list_all is_word r"
    and h: "\<not> is_us (hd r)" and l: "\<not> is_us (last r)"
    by (simp_all add: normal_key_def)
  have hw: "is_word (hd r)" and lw: "is_word (last r)"
    using ne w by (auto simp: list_all_iff)
  have t: "trim r = r"
    unfolding trim_def using ne hw lw by (intro strip_both_id) (auto dest: word_not_space)
  have m: "map (\<lambda>x. if is_word x then x else CHR ''_'') r = r"
    using w by (induction r) auto
  obtain c cs where r: "r = c # cs" using ne by (cases r) auto
  have rn: "replace_nonword r = (if is_digit c then ''_'' else []) @ r"
    using m by (simp add: replace_nonword_def r)
  have d: "dropWhile is_us (replace_nonword r) = r"
    using h rn r by (auto simp: is_us_def)
  have "strip_underscores (replace_nonword r) = r"
    unfolding strip_underscores_def d using ne h l strip_both_id [of r is_us]
    by (simp add: dropWhile_hd_id)
  then show ?thesis using ne t by (simp add: normalizeColumnName_def)
qed

text \<open>
  Claim C9.  The key normalisation is idempotent: normalising a normalised key gives the
  same key, for every string.
\<close>

theorem normalizeColumnName_idempotent:
  "normalizeColumnName (normalizeColumnName k) = normalizeColumnName k"
  by (rule normalize_fixes_normal) (rule normalize_normal)

section \<open>Properties of the address validation\<close>

text \<open>
  The test accepts exactly the strings the regular expression describes: a non-empty local
  part, \<open>@\<close>, a non-empty domain, a dot, and at least two letters.
\<close>

lemma at_not_local: "\<not> is_local_char CHR ''@''"
  by (simp add: is_local_char_def is_alpha_def is_upper_def is_lower_def is_digit_def)

lemma dot_not_alpha: "\<not> is_alpha CHR ''.''"
  by (simp add: is_alpha_def is_upper_def is_lower_def)

lemma email_regex_test_iff:
  "email_regex_test s \<longleftrightarrow>
     (\<exists>l d t. s = l @ ''@'' @ d @ ''.'' @ t
        \<and> l \<noteq> [] \<and> list_all is_local_char l
        \<and> d \<noteq> [] \<and> list_all is_domain_char d
        \<and> 2 \<le> length t \<and> list_all is_alpha t)"
proof
  assume a: "email_regex_test s"
  let ?l = "takeWhile is_local_char s"
  let ?rest = "dropWhile is_local_char s"
  from a have l: "?l \<noteq> []" by (simp add: email_regex_test_def Let_def)
  from a obtain r where rest: "?rest = CHR ''@'' # r"
    by (cases ?rest) (auto simp: email_regex_test_def Let_def)
  let ?t = "rev (takeWhile is_alpha (rev r))"
  let ?pre = "rev (dropWhile is_alpha (rev r))"
  from a rest have p: "2 \<le> length ?t" "?pre \<noteq> []" "last ?pre = CHR ''.''"
    "butlast ?pre \<noteq> []" "list_all is_domain_char (butlast ?pre)"
    by (simp_all add: email_regex_test_def Let_def)
  have "rev r = takeWhile is_alpha (rev r) @ dropWhile is_alpha (rev r)" by simp
  then have "rev (rev r) = rev (takeWhile is_alpha (rev r) @ dropWhile is_alpha (rev r))"
    by (rule arg_cong)
  then have r: "r = ?pre @ ?t" by (simp only: rev_rev_ident rev_append)
  have pre: "?pre = butlast ?pre @ ''.''"
    using p(2,3) by (metis append_butlast_last_id)
  have s: "s = ?l @ ?rest" by simp
  have "s = ?l @ ''@'' @ butlast ?pre @ ''.'' @ ?t"
    using s rest r pre by (metis append.assoc append_Cons append_Nil)
  moreover have "list_all is_local_char ?l"
    by (auto simp: list_all_iff dest: set_takeWhileD)
  moreover have "list_all is_alpha ?t"
    by (auto simp: list_all_iff dest: set_takeWhileD)
  ultimately show "\<exists>l d t. s = l @ ''@'' @ d @ ''.'' @ t
        \<and> l \<noteq> [] \<and> list_all is_local_char l
        \<and> d \<noteq> [] \<and> list_all is_domain_char d
        \<and> 2 \<le> length t \<and> list_all is_alpha t"
    using l p by blast
next
  assume "\<exists>l d t. s = l @ ''@'' @ d @ ''.'' @ t
        \<and> l \<noteq> [] \<and> list_all is_local_char l
        \<and> d \<noteq> [] \<and> list_all is_domain_char d
        \<and> 2 \<le> length t \<and> list_all is_alpha t"
  then obtain l d t where s: "s = l @ ''@'' @ d @ ''.'' @ t"
    and l: "l \<noteq> []" "list_all is_local_char l"
    and d: "d \<noteq> []" "list_all is_domain_char d"
    and t: "2 \<le> length t" "list_all is_alpha t"
    by blast
  have tl: "takeWhile is_local_char s = l"
    using l(2) at_not_local by (simp add: s list_all_iff takeWhile_append2)
  have dl: "dropWhile is_local_char s = CHR ''@'' # d @ ''.'' @ t"
    using l(2) at_not_local by (simp add: s list_all_iff dropWhile_append2)
  have rv: "rev (d @ ''.'' @ t) = rev t @ CHR ''.'' # rev d" by simp
  have al: "\<And>x. x \<in> set (rev t) \<Longrightarrow> is_alpha x"
    using t(2) by (simp add: list_all_iff)
  have "takeWhile is_alpha (rev t @ CHR ''.'' # rev d)
          = rev t @ takeWhile is_alpha (CHR ''.'' # rev d)"
    by (rule takeWhile_append2) (rule al)
  then have tt: "takeWhile is_alpha (rev t @ CHR ''.'' # rev d) = rev t"
    using dot_not_alpha by simp
  have "dropWhile is_alpha (rev t @ CHR ''.'' # rev d) = dropWhile is_alpha (CHR ''.'' # rev d)"
    by (rule dropWhile_append2) (rule al)
  then have dt: "dropWhile is_alpha (rev t @ CHR ''.'' # rev d) = CHR ''.'' # rev d"
    using dot_not_alpha by simp
  show "email_regex_test s"
    unfolding email_regex_test_def tl dl Let_def
    using l d t dot_not_alpha by (simp add: tt dt)
qed

section \<open>Properties of the template renderer\<close>

text \<open>
  The pattern matches at the head of a string exactly when the string starts with two
  opening braces, a non-empty run of the class, and two closing braces.
\<close>

lemma brace_not_key: "\<not> is_key_char CHR ''}''"
  by (simp add: is_key_char_def is_word_def is_alpha_def is_upper_def is_lower_def is_digit_def
      is_space_def)

lemma match_placeholder_iff:
  "match_placeholder s = Some (m, p1, rest) \<longleftrightarrow>
     (\<exists>body. s = ''{{'' @ body @ ''}}'' @ rest \<and> body \<noteq> [] \<and> list_all is_key_char body
        \<and> m = ''{{'' @ body @ ''}}'' \<and> p1 = capture body)"
proof
  assume a: "match_placeholder s = Some (m, p1, rest)"
  let ?body = "takeWhile is_key_char (drop 2 s)"
  let ?after = "dropWhile is_key_char (drop 2 s)"
  from a have t: "take 2 s = ''{{''" and b: "?body \<noteq> []" and c: "take 2 ?after = ''}}''"
    and m: "m = ''{{'' @ ?body @ ''}}''" and p: "p1 = capture ?body" and r: "rest = drop 2 ?after"
    by (auto simp: match_placeholder_def Let_def split: if_splits)
  have "s = take 2 s @ drop 2 s" by simp
  also have "drop 2 s = ?body @ ?after" by simp
  also have "?after = take 2 ?after @ drop 2 ?after" by simp
  finally have "s = ''{{'' @ ?body @ ''}}'' @ rest" using t c r by simp
  moreover have "list_all is_key_char ?body" by (auto simp: list_all_iff dest: set_takeWhileD)
  ultimately show "\<exists>body. s = ''{{'' @ body @ ''}}'' @ rest \<and> body \<noteq> [] \<and> list_all is_key_char body
        \<and> m = ''{{'' @ body @ ''}}'' \<and> p1 = capture body"
    using b m p by blast
next
  assume "\<exists>body. s = ''{{'' @ body @ ''}}'' @ rest \<and> body \<noteq> [] \<and> list_all is_key_char body
        \<and> m = ''{{'' @ body @ ''}}'' \<and> p1 = capture body"
  then obtain body where s: "s = ''{{'' @ body @ ''}}'' @ rest" and b: "body \<noteq> []"
    and k: "list_all is_key_char body" and m: "m = ''{{'' @ body @ ''}}''" and p: "p1 = capture body"
    by blast
  have d: "drop 2 s = body @ ''}}'' @ rest" by (simp add: s)
  have tk: "takeWhile is_key_char (drop 2 s) = body"
    unfolding d using k brace_not_key by (simp add: list_all_iff takeWhile_append2)
  have dk: "dropWhile is_key_char (drop 2 s) = ''}}'' @ rest"
    unfolding d using k brace_not_key by (simp add: list_all_iff dropWhile_append2)
  show "match_placeholder s = Some (m, p1, rest)"
    unfolding match_placeholder_def tk dk Let_def using b m p by (simp add: s)
qed

lemma no_placeholder_unchanged:
  assumes "\<And>i. match_placeholder (drop i t) = None"
  shows "replace_placeholders f t = Some t"
  using assms
proof (induction t)
  case Nil
  then show ?case by simp
next
  case (Cons c cs)
  have h: "match_placeholder (c # cs) = None" using Cons.prems [of 0] by simp
  have "match_placeholder (drop i cs) = None" for i using Cons.prems [of "Suc i"] by simp
  then have "replace_placeholders f cs = Some cs" by (rule Cons.IH)
  then show ?case using h by simp
qed

text \<open>A template in which the pattern matches nowhere is rendered as it is.\<close>

lemma processTemplate_no_placeholder:
  "(\<And>i. match_placeholder (drop i t) = None) \<Longrightarrow> processTemplate (JStr t) ctx = Some t"
  by (simp add: no_placeholder_unchanged)

lemma processTemplate_missing:
  "processTemplate (JStr ''{{missing}}'') Map.empty = Some ''{{missing}}''"
  by code_simp

lemma render_hello:
  "processTemplate (JStr ''Hello {{Email}}'') (build_ctx [(''Email'', JStr ''a@x.com'')])
     = Some ''Hello a@x.com''"
  by code_simp

lemma render_hi: "processTemplate (JStr ''Hi'') ctx = Some ''Hi''"
  by (simp add: match_placeholder_def)

text \<open>
  A value whose conversion throws makes the rendering throw: a column that holds an object
  with an own \<open>toString\<close> property.
\<close>

lemma render_throws:
  "processTemplate (JStr ''v={{x}}'') (build_ctx [(''x'', JObj [(''toString'', JNum False 1)])])
     = None"
  by code_simp

text \<open>
  Claim C8.  A placeholder whose normalised key is absent from the context is meant to be
  left verbatim.  The renderer reads the key with \<open>ctx[key]\<close> on a plain object, so a key
  that names a property of \<open>Object.prototype\<close> is found although the context does not have
  it: with the empty context, \<open>{{constructor}}\<close> is replaced by the text of a native
  function.
\<close>

theorem inherited_key_is_substituted:
  "normalizeColumnName ''constructor'' = ''constructor''
   \<and> (Map.empty :: string \<rightharpoonup> jsval) ''constructor'' = None
   \<and> processTemplate (JStr ''{{constructor}}'') Map.empty
       = Some ''function Object() { [native code] }''"
proof -
  have "normalizeColumnName ''constructor'' = ''constructor''" by code_simp
  moreover have "processTemplate (JStr ''{{constructor}}'') Map.empty
                   = Some ''function Object() { [native code] }''" by code_simp
  ultimately show ?thesis by simp
qed

section \<open>Properties of the number arithmetic\<close>

text \<open>
  The rounding of a positive value scales it into \<open>[2^52, 2^53)\<close> and takes an integer at
  distance at most one half there: the result has a 53-bit significand and is a nearest
  such value.
\<close>

lemma pow2_power_int: "pow2 k = power_int 2 k"
  by (simp add: pow2_def power_int_def power_one_over)

lemma pow2_pos: "0 < pow2 k"
  by (simp add: pow2_power_int)

lemma round_half_even_near: "\<bar>x - of_int (round_half_even x)\<bar> \<le> 1 / 2"
proof -
  have "of_int \<lfloor>x\<rfloor> \<le> x" "x < of_int \<lfloor>x\<rfloor> + 1" by linarith+
  then show ?thesis by (auto simp: round_half_even_def Let_def)
qed

lemma binade_bounds:
  assumes "0 < x"
  shows "pow2 (binade x) \<le> x \<and> x < pow2 (binade x + 1)"
proof -
  obtain a b where q: "quotient_of x = (a, b)" by (cases "quotient_of x")
  then have b: "0 < b" by (rule quotient_of_denom_pos)
  have x: "x = of_int a / of_int b" using q by (rule quotient_of_div)
  have a: "0 < a" using assms b x by (simp add: zero_less_divide_iff)
  let ?k = "bitlen a - bitlen b"
  from bitlen_bounds [OF a] have a1: "(2::rat) ^ nat (bitlen a - 1) \<le> of_int a"
    and a2: "of_int a < (2::rat) ^ nat (bitlen a)"
    by (metis of_int_le_iff of_int_numeral of_int_power, metis of_int_less_iff of_int_numeral of_int_power)
  from bitlen_bounds [OF b] have b1: "(2::rat) ^ nat (bitlen b - 1) \<le> of_int b"
    and b2: "of_int b < (2::rat) ^ nat (bitlen b)"
    by (metis of_int_le_iff of_int_numeral of_int_power, metis of_int_less_iff of_int_numeral of_int_power)
  have la: "1 \<le> bitlen a" and lb: "1 \<le> bitlen b"
    using a b by (simp_all add: bitlen_alt_def)
  have pa1: "power_int (2::rat) (bitlen a - 1) \<le> of_int a"
    using a1 la by (simp add: power_int_def)
  have pa2: "of_int a < power_int (2::rat) (bitlen a)"
    using a2 la by (simp add: power_int_def)
  have pb1: "power_int (2::rat) (bitlen b - 1) \<le> of_int b"
    using b1 lb by (simp add: power_int_def)
  have pb2: "of_int b < power_int (2::rat) (bitlen b)"
    using b2 lb by (simp add: power_int_def)
  have bpos: "(0::rat) < of_int b" using b by simp
  have up: "x < power_int 2 (?k + 1)"
  proof -
    have "x < power_int 2 (bitlen a) / of_int b"
      unfolding x using pa2 bpos by (simp add: divide_strict_right_mono)
    also have "\<dots> \<le> power_int 2 (bitlen a) / power_int 2 (bitlen b - 1)"
      using pb1 bpos by (intro divide_left_mono) (auto intro!: mult_pos_pos)
    also have "\<dots> = power_int 2 (?k + 1)"
      by (simp add: power_int_diff power_int_add)
    finally show ?thesis .
  qed
  have lo: "power_int 2 (?k - 1) \<le> x"
  proof -
    have "power_int 2 (?k - 1) = power_int (2::rat) (bitlen a - 1) / power_int 2 (bitlen b)"
      by (simp add: power_int_diff)
    also have "\<dots> \<le> of_int a / power_int 2 (bitlen b)"
      using pa1 by (simp add: divide_right_mono)
    also have "\<dots> \<le> of_int a / of_int b"
      using pb2 a bpos by (intro divide_left_mono) simp_all
    finally show ?thesis by (simp add: x)
  qed
  show ?thesis
    using up lo by (auto simp: binade_def q Let_def pow2_power_int)
qed

lemma fl_nearest:
  assumes "0 < x"
  shows "\<exists>n. fl x = of_int n / pow2 (52 - binade x)
           \<and> \<bar>x * pow2 (52 - binade x) - of_int n\<bar> \<le> 1 / 2
           \<and> 2 ^ 52 \<le> x * pow2 (52 - binade x) \<and> x * pow2 (52 - binade x) < 2 ^ 53"
proof -
  let ?s = "pow2 (52 - binade x)"
  have s: "?s = 2 ^ 52 / pow2 (binade x)" "?s = 2 ^ 53 / pow2 (binade x + 1)"
    by (simp_all add: pow2_power_int power_int_diff power_int_add)
  have p: "0 < pow2 (binade x)" "0 < pow2 (binade x + 1)" by (rule pow2_pos)+
  from binade_bounds [OF assms] have b: "pow2 (binade x) \<le> x" "x < pow2 (binade x + 1)" by simp_all
  have lo: "2 ^ 52 \<le> x * ?s"
    unfolding s(1) using b(1) p(1) by (simp add: field_simps)
  have hi: "x * ?s < 2 ^ 53"
    unfolding s(2) using b(2) p(2) by (simp add: field_simps)
  have f: "fl x = of_int (round_half_even (x * ?s)) / ?s"
    using assms by (simp add: fl_def Let_def)
  show ?thesis
    using f round_half_even_near [of "x * ?s"] lo hi by blast
qed

section \<open>Properties of the status projection\<close>

text \<open>
  Claim C10.  \<open>status\<close> is read-only: the state of the Durable Object after it is the state
  before it, and the object it returns has no \<open>recipients\<close> key.
\<close>

theorem status_read_only:
  "snd (status st) = st \<and> ''recipients'' \<notin> set (view_keys (fst (status st)))"
  by (cases "stored_job st") (simp_all add: status_def spread_def Let_def)

text \<open>
  Claim C7.  The completion percentage is meant to be the floor of
  \<open>processed / total * 100\<close>, and 0 for an empty job.  It is 75 for 3 of 4 and 0 for an
  empty job, but the quotient is rounded to a binary64 value before it is multiplied: for
  29 of 100 the product is just below 29 and the view shows 28.
\<close>

theorem completion_percentage_rounding:
  "completion_percentage (j\<lparr>processed := 29, total := 100\<rparr>) = 28
   \<and> \<lfloor>(29 :: rat) / 100 * 100\<rfloor> = 29
   \<and> completion_percentage (j\<lparr>processed := 3, total := 4\<rparr>) = 75
   \<and> completion_percentage (j\<lparr>processed := p, total := 0\<rparr>) = 0"
proof -
  have a: "js_div 29 100 = 5224175567749775 / 18014398509481984"
    by code_simp
  have b: "js_mul (5224175567749775 / 18014398509481984) 100
             = 8162774324609023 / 281474976710656"
    by code_simp
  have c: "\<lfloor>8162774324609023 / 281474976710656 :: rat\<rfloor> = 28" by code_simp
  have x: "\<lfloor>js_mul (js_div 29 100) 100\<rfloor> = 28" by (simp only: a b c)
  have d: "js_div 3 4 = 3 / 4" by code_simp
  have e: "js_mul (3 / 4) 100 = 75" by code_simp
  have y: "\<lfloor>js_mul (js_div 3 4) 100\<rfloor> = 75" by (simp only: d e) simp
  show ?thesis using x y by (simp add: completion_percentage_def)
qed

section \<open>Properties of the tick\<close>

subsection \<open>What one tick does to the stored job\<close>

lemma fetchSMTP2GO_put_ok [simp]:
  "fetchSMTP2GO e (h\<lparr>put_ok := b\<rparr>) p = fetchSMTP2GO e h p"
  by (simp add: fetchSMTP2GO_def)

lemma process_recipient_put_ok [simp]:
  "process_recipient e (h\<lparr>put_ok := b\<rparr>) j = process_recipient e h j"
  by (simp add: process_recipient_def Let_def cong: option.case_cong if_cong)

lemma process_recipient_fields:
  assumes "process_recipient e h j = Inr (evs, j')"
  shows "processed j' = processed j + 1"
    and "success j' + failed j' = success j + failed j + 1"
    and "total j' = total j"
    and "in_progress j' = in_progress j"
    and "recipients j' = recipients j"
    and "interval j' = interval j"
  using assms
  by (auto simp: process_recipient_def Let_def split: if_splits sum.splits prod.splits option.splits)

lemma process_recipient_events:
  "process_recipient e h j = Inr (evs, j') \<Longrightarrow> list_all is_Dispatch evs"
  by (auto simp: process_recipient_def Let_def split: if_splits sum.splits option.splits)

text \<open>The only exception of the processing is the one of the validation.\<close>

lemma process_recipient_throws:
  "process_recipient e h j = Inl x \<Longrightarrow> x = TypeError"
  by (auto simp: process_recipient_def Let_def split: if_splits sum.splits option.splits prod.splits)


lemma fire_cases:
  assumes "stored_job st = Some j"
  shows "stored_job (state (fire e h st)) = Some j
       \<or> (in_progress j \<and> total j \<le> processed j
            \<and> stored_job (state (fire e h st)) = Some (j\<lparr>in_progress := False\<rparr>))
       \<or> (in_progress j \<and> processed j < total j
            \<and> (\<exists>evs j'. process_recipient e h j = Inr (evs, j')
                  \<and> stored_job (state (fire e h st)) = Some j'))"
  using assms
  by (auto simp: fire_def alarm_def Let_def split: prod.splits sum.splits)

lemma fire_none:
  "stored_job st = None \<Longrightarrow> stored_job (state (fire e h st)) = None"
  by (simp add: fire_def alarm_def)

lemma fire_finished:
  assumes "stored_job st = Some j" "\<not> in_progress j"
  shows "stored_job (state (fire e h st)) = Some j"
  using assms by (simp add: fire_def alarm_def)

lemma fire_disarmed [simp]: "fire e h (st\<lparr>alarm_at := None\<rparr>) = fire e h st"
  by (simp add: fire_def)

lemma fire_processing_ok:
  assumes "stored_job st = Some j" "in_progress j" "processed j < total j"
    and "process_recipient e h j = Inr (evs, j')" "put_ok h"
  shows "fire e h st =
     \<lparr>events = evs @ Put j' #
         (if processed j' < total j then [SetAlarm (date_now h 0 + interval j * 1000)] else []),
      state = \<lparr>stored_job = Some j',
               alarm_at = (if processed j' < total j
                           then Some (date_now h 0 + interval j * 1000) else None)\<rparr>,
      raised = None, reply = None\<rparr>"
  using assms process_recipient_fields [OF assms(4)]
  by (cases st) (simp add: fire_def alarm_def Let_def)

lemma fire_processing_rejected:
  assumes "stored_job st = Some j" "in_progress j" "processed j < total j"
    and "process_recipient e h j = Inr (evs, j')" "\<not> put_ok h"
  shows "fire e h st =
     \<lparr>events = evs, state = st\<lparr>alarm_at := None\<rparr>, raised = Some PutRejected, reply = None\<rparr>"
  using assms by (simp add: fire_def alarm_def)

lemma fire_processing_aborted:
  assumes "stored_job st = Some j" "in_progress j" "processed j < total j"
    and "process_recipient e h j = Inl x"
  shows "fire e h st =
     \<lparr>events = [], state = st\<lparr>alarm_at := None\<rparr>, raised = Some x, reply = None\<rparr>"
  using assms by (simp add: fire_def alarm_def)

subsection \<open>Scenario A, evaluated\<close>

lemma valid_a: "isValidEmail (JStr ''a@x.com'') = Some True"
  by code_simp

lemma resolve_a: "resolve_email (JObj [(''Email'', JStr ''a@x.com'')]) = JStr ''a@x.com''"
  by (simp add: resolve_email_def js_or_def obj_get_def)

lemma payload_first_of_campaign:
  assumes "subjectTmpl j = JStr ''Hi''" "htmlTmpl j = JStr ''Hello {{Email}}''"
    and "fromEmailTmpl j = JStr []" "fromNameTmpl j = JStr []"
  shows "build_payload env0 j (JObj [(''Email'', JStr ''a@x.com'')]) (JStr ''a@x.com'')
   = Some \<lparr>to = [JStr ''a@x.com''], sender = JStr ''sender@x.com'', subject = ''Hi'',
         html_body = ''Hello a@x.com'', api_key = JUndefined\<rparr>"
  using assms
  by (simp add: build_payload_def sender_part_def render_hello render_hi env0_def binding_def
      Let_def del: processTemplate.simps)

lemma fetch_ok: "fetchSMTP2GO env0 host_ok p = Inr ()"
  by (simp add: fetchSMTP2GO_def env0_def host_ok_def binding_def)

lemma process_first_of_campaign:
  assumes "processed j = 0" "recipients j = JObj [(''Email'', JStr ''a@x.com'')] # rs"
    and "subjectTmpl j = JStr ''Hi''" "htmlTmpl j = JStr ''Hello {{Email}}''"
    and "fromEmailTmpl j = JStr []" "fromNameTmpl j = JStr []"
  shows "process_recipient env0 host_ok j
   = Inr ([Dispatch \<lparr>to = [JStr ''a@x.com''], sender = JStr ''sender@x.com'', subject = ''Hi'',
         html_body = ''Hello a@x.com'', api_key = JUndefined\<rparr>],
      j\<lparr>success := success j + 1, processed := 1, current := JStr ''a@x.com''\<rparr>)"
  using assms(1,2)
  by (simp add: process_recipient_def resolve_a valid_a payload_first_of_campaign [OF assms(3-6)]
      fetch_ok js_or_def Let_def)

lemma scenario_A_init:
  "state (init host_ok (campaign [JObj [(''Email'', JStr ''a@x.com'')]]) idle)
     = \<lparr>stored_job = Some (new_job host_ok (campaign [JObj [(''Email'', JStr ''a@x.com'')]])),
        alarm_at = Some 1000\<rparr>"
  by (simp add: init_def idle_def host_ok_def campaign_def Let_def)

lemma scenario_A_tick:
  "fire env0 host_ok (state (init host_ok (campaign [JObj [(''Email'', JStr ''a@x.com'')]]) idle))
     = \<lparr>events =
          [Dispatch \<lparr>to = [JStr ''a@x.com''], sender = JStr ''sender@x.com'', subject = ''Hi'',
                     html_body = ''Hello a@x.com'', api_key = JUndefined\<rparr>,
           Put ((new_job host_ok (campaign [JObj [(''Email'', JStr ''a@x.com'')]]))
                  \<lparr>success := 1, processed := 1, current := JStr ''a@x.com''\<rparr>)],
        state =
          \<lparr>stored_job = Some ((new_job host_ok (campaign [JObj [(''Email'', JStr ''a@x.com'')]]))
                               \<lparr>success := 1, processed := 1, current := JStr ''a@x.com''\<rparr>),
           alarm_at = None\<rparr>,
        raised = None, reply = None\<rparr>"
proof -
  let ?j0 = "new_job host_ok (campaign [JObj [(''Email'', JStr ''a@x.com'')]])"
  have s: "stored_job (state (init host_ok (campaign [JObj [(''Email'', JStr ''a@x.com'')]]) idle))
             = Some ?j0"
    by (simp add: scenario_A_init)
  have j0: "in_progress ?j0" "processed ?j0 < total ?j0"
    by (simp_all add: new_job_def campaign_def)
  have ok: "put_ok host_ok" by (simp add: host_ok_def)
  have p: "process_recipient env0 host_ok ?j0
     = Inr ([Dispatch \<lparr>to = [JStr ''a@x.com''], sender = JStr ''sender@x.com'', subject = ''Hi'',
           html_body = ''Hello a@x.com'', api_key = JUndefined\<rparr>],
        ?j0\<lparr>success := success ?j0 + 1, processed := 1, current := JStr ''a@x.com''\<rparr>)"
    by (rule process_first_of_campaign) (simp_all add: new_job_def campaign_def)
  show ?thesis
    unfolding fire_processing_ok [OF s j0 p ok]
    by (simp add: new_job_def campaign_def)
qed

text \<open>
  Claim C1.  Scenario A: \<open>init\<close> with the one recipient \<open>{Email: "a@x.com"}\<close>, subject
  \<open>Hi\<close>, body \<open>Hello {{Email}}\<close> and interval 1, then one tick with a mail service that
  accepts the message.  The stored job has \<open>processed = 1\<close>, \<open>success = 1\<close>, \<open>failed = 0\<close> and
  the body handed to the transport is \<open>Hello a@x.com\<close>; but \<open>in_progress\<close> is still true,
  and the tick arms no alarm, so no later tick is scheduled that could clear it.
\<close>

theorem scenario_A_in_progress_stays_true:
  "(let r = fire env0 host_ok
              (state (init host_ok (campaign [JObj [(''Email'', JStr ''a@x.com'')]]) idle))
    in map_option processed (stored_job (state r)) = Some 1
     \<and> map_option success (stored_job (state r)) = Some 1
     \<and> map_option failed (stored_job (state r)) = Some 0
     \<and> map (html_body \<circ> dispatched) (filter is_Dispatch (events r)) = [''Hello a@x.com'']
     \<and> map_option in_progress (stored_job (state r)) = Some True
     \<and> filter is_SetAlarm (events r) = []
     \<and> alarm_at (state r) = None)"
  unfolding scenario_A_tick Let_def by (simp add: new_job_def)

subsection \<open>Counters\<close>

lemma fire_inv:
  assumes "stored_job st = Some j" "job_inv j"
  shows "\<exists>j'. stored_job (state (fire e h st)) = Some j' \<and> job_inv j'
              \<and> processed j \<le> processed j'"
proof -
  from fire_cases [OF assms(1), of e h] consider
    (same) "stored_job (state (fire e h st)) = Some j"
  | (finished) "stored_job (state (fire e h st)) = Some (j\<lparr>in_progress := False\<rparr>)"
  | (step) evs j' where "processed j < total j" "process_recipient e h j = Inr (evs, j')"
      "stored_job (state (fire e h st)) = Some j'"
    by blast
  then show ?thesis
  proof cases
    case same
    then show ?thesis using assms(2) by simp
  next
    case finished
    then show ?thesis using assms(2) by (simp add: job_inv_def)
  next
    case step
    note f = process_recipient_fields [OF step(2)]
    show ?thesis using step(1,3) f assms(2) by (simp add: job_inv_def)
  qed
qed

lemma ticks_inv:
  assumes "stored_job st = Some j" "job_inv j"
  shows "\<exists>j'. stored_job (ticks e hs st) = Some j' \<and> job_inv j'
              \<and> processed j \<le> processed j'"
  using assms
proof (induction hs arbitrary: st j)
  case Nil
  then show ?case by simp
next
  case (Cons h hs)
  from fire_inv [OF Cons.prems, of e h] obtain j1 where
    j1: "stored_job (state (fire e h st)) = Some j1" "job_inv j1" "processed j \<le> processed j1"
    by blast
  from Cons.IH [OF j1(1,2)] j1(3) show ?case by auto
qed

lemma ticks_none:
  "stored_job st = None \<Longrightarrow> stored_job (ticks e hs st) = None"
  by (induction hs arbitrary: st) (simp_all add: fire_none)

lemma init_inv:
  assumes "put_ok h0 \<or> stored_job st0 = None"
    and "stored_job (state (init h0 req st0)) = Some j"
  shows "job_inv j"
  using assms by (auto simp: init_def Let_def new_job_def job_inv_def split: if_splits)

text \<open>
  Claim C2.  In every state reached from the state \<open>init\<close> leaves (on a fresh object, or
  with its write resolved) by any run of ticks, the stored counters satisfy
  \<open>processed = success + failed\<close> and \<open>processed \<le> total\<close>, and one more tick, whatever it
  meets, leaves a stored job whose \<open>processed\<close> is not smaller.
\<close>

theorem counters_invariant:
  assumes "put_ok h0 \<or> stored_job st0 = None"
    and "st = ticks e hs (state (init h0 req st0))"
    and "stored_job st = Some j"
  shows "processed j = success j + failed j \<and> processed j \<le> total j \<and>
         (\<exists>j'. stored_job (state (fire e h st)) = Some j' \<and> processed j \<le> processed j')"
proof -
  have inv: "job_inv j"
  proof (cases "stored_job (state (init h0 req st0))")
    case None
    then show ?thesis using ticks_none assms(2,3) by fastforce
  next
    case (Some j0)
    then have "job_inv j0" using init_inv assms(1) by blast
    with Some ticks_inv [of _ j0 e hs] assms(2,3) show ?thesis by fastforce
  qed
  with fire_inv [OF assms(3), of e h] show ?thesis by (auto simp: job_inv_def)
qed

text \<open>The run of Scenario A satisfies the hypotheses: one tick after \<open>init\<close>.\<close>

theorem counters_invariant_witness:
  "\<exists>j. stored_job (ticks env0 [host_ok]
            (state (init host_ok (campaign [JObj [(''Email'', JStr ''a@x.com'')]]) idle))) = Some j
     \<and> processed j = 1 \<and> success j = 1 \<and> failed j = 0 \<and> total j = 1
     \<and> processed j = success j + failed j \<and> processed j \<le> total j
     \<and> (\<exists>j'. stored_job (state (fire env0 host_ok (ticks env0 [host_ok]
            (state (init host_ok (campaign [JObj [(''Email'', JStr ''a@x.com'')]]) idle)))))
              = Some j'
            \<and> processed j \<le> processed j')"
proof -
  let ?st = "ticks env0 [host_ok]
               (state (init host_ok (campaign [JObj [(''Email'', JStr ''a@x.com'')]]) idle))"
  let ?j = "(new_job host_ok (campaign [JObj [(''Email'', JStr ''a@x.com'')]]))
               \<lparr>success := 1, processed := 1, current := JStr ''a@x.com''\<rparr>"
  have a: "put_ok host_ok \<or> stored_job idle = None" by (simp add: idle_def)
  have s: "stored_job ?st = Some ?j" by (simp add: scenario_A_tick)
  have v: "processed ?j = 1" "success ?j = 1" "failed ?j = 0" "total ?j = 1"
    by (simp_all add: new_job_def campaign_def)
  from counters_invariant [OF a refl s, of host_ok] s v show ?thesis by simp
qed

subsection \<open>Completion is final\<close>

text \<open>
  Claim C4.  Once the stored job has \<open>in_progress = false\<close>, every run of ticks leaves the
  stored job as it is; in particular no tick sets \<open>in_progress\<close> back to true.
\<close>

theorem in_progress_never_reverts:
  assumes "stored_job st = Some j" "\<not> in_progress j"
  shows "stored_job (ticks e hs st) = Some j"
  using assms
  by (induction hs arbitrary: st) (simp_all add: fire_finished)

lemma finished_job:
  "stored_job (state (fire env0 host_ok (state (init host_ok (campaign []) idle))))
     = Some ((new_job host_ok (campaign []))\<lparr>in_progress := False\<rparr>)"
  by (simp add: fire_def alarm_def init_def idle_def host_ok_def new_job_def campaign_def Let_def)

text \<open>
  A job without recipients is completed by its first tick; two more ticks, one of them
  with a rejected write, leave it completed.
\<close>

theorem in_progress_never_reverts_witness:
  "\<exists>j. stored_job (state (fire env0 host_ok (state (init host_ok (campaign []) idle)))) = Some j
     \<and> \<not> in_progress j
     \<and> stored_job (ticks env0 [host_ok, host_down]
          (state (fire env0 host_ok (state (init host_ok (campaign []) idle))))) = Some j"
proof -
  let ?j = "(new_job host_ok (campaign []))\<lparr>in_progress := False\<rparr>"
  have n: "\<not> in_progress ?j" by simp
  from in_progress_never_reverts [OF finished_job n, of env0 "[host_ok, host_down]"] finished_job
  show ?thesis by simp
qed

subsection \<open>A tick that throws before the write\<close>

text \<open>
  An address that is an object with an own \<open>toString\<close> property cannot be converted to a
  string: \<open>isValidEmail\<close> throws, outside the \<open>try\<close>, and the tick ends before the write and
  before the alarm.  The stored job is the one before the tick.
\<close>

lemma unreadable_address_aborts_tick:
  "fire env0 host_ok
     (state (init host_ok (campaign [JObj [(''Email'', JObj [(''toString'', JNum False 1)])]]) idle))
   = \<lparr>events = [],
      state = \<lparr>stored_job = Some (new_job host_ok
                   (campaign [JObj [(''Email'', JObj [(''toString'', JNum False 1)])]])),
               alarm_at = None\<rparr>,
      raised = Some TypeError, reply = None\<rparr>"
proof -
  let ?r = "JObj [(''Email'', JObj [(''toString'', JNum False 1)])]"
  let ?j0 = "new_job host_ok (campaign [?r])"
  have s: "state (init host_ok (campaign [?r]) idle) = \<lparr>stored_job = Some ?j0, alarm_at = Some 1000\<rparr>"
    by (simp add: init_def idle_def host_ok_def campaign_def Let_def)
  have j0: "in_progress ?j0" "processed ?j0 < total ?j0"
    by (simp_all add: new_job_def campaign_def)
  have v: "isValidEmail (resolve_email ?r) = None"
    by (simp add: isValidEmail_def resolve_email_def js_or_def obj_get_def)
  have p: "process_recipient env0 host_ok ?j0 = Inl TypeError"
    by (simp add: process_recipient_def Let_def) (simp add: new_job_def campaign_def v)
  show ?thesis
    unfolding s by (simp add: fire_processing_aborted [OF _ j0 p])
qed

text \<open>
  A column that holds such an object, used by the body template, makes the rendering
  throw inside the \<open>try\<close>: the failure is recorded with the message of the exception and
  nothing is handed to the dispatch client.
\<close>

lemma unreadable_column_is_recorded:
  "process_recipient env0 host_ok
     ((new_job host_ok
        (campaign [JObj [(''Email'', JStr ''a@x.com''), (''x'', JObj [(''toString'', JNum False 1)])]]))
      \<lparr>htmlTmpl := JStr ''v={{x}}''\<rparr>)
   = Inr ([],
      (new_job host_ok
        (campaign [JObj [(''Email'', JStr ''a@x.com''), (''x'', JObj [(''toString'', JNum False 1)])]]))
      \<lparr>htmlTmpl := JStr ''v={{x}}'', failed := 1,
        failures := [\<lparr>fail_i = 0, fail_email = JStr ''a@x.com'',
                      fail_error = ''Cannot convert object to primitive value''\<rparr>],
        processed := 1, current := JStr ''a@x.com''\<rparr>)"
proof -
  let ?r = "JObj [(''Email'', JStr ''a@x.com''), (''x'', JObj [(''toString'', JNum False 1)])]"
  let ?j = "(new_job host_ok (campaign [?r]))\<lparr>htmlTmpl := JStr ''v={{x}}''\<rparr>"
  have r: "resolve_email ?r = JStr ''a@x.com''"
    by (simp add: resolve_email_def js_or_def obj_get_def)
  have t: "processTemplate (JStr ''v={{x}}'')
             (build_ctx [(''Email'', JStr ''a@x.com''), (''x'', JObj [(''toString'', JNum False 1)])])
           = None"
    by code_simp
  have b: "build_payload env0 ?j ?r (JStr ''a@x.com'') = None"
    by (simp add: build_payload_def new_job_def campaign_def render_hi t Let_def
        del: processTemplate.simps)
  show ?thesis
    by (simp add: process_recipient_def Let_def)
       (simp add: new_job_def campaign_def r valid_a b [unfolded new_job_def campaign_def, simplified]
          type_error_message_def js_or_def)
qed

subsection \<open>The write comes before the alarm\<close>

text \<open>
  Claim C5.  A tick that finds a recipient under the cursor either throws in the
  validation, before any effect, or has the effects "dispatch (if any), then \<open>put\<close> of the
  updated job, then (if recipients remain) \<open>setAlarm\<close>", in this order.  When the write is
  rejected, the handler ends by an exception: no alarm is armed, the stored job is the one
  before the tick, and a later tick runs exactly as it would have run on the state before
  the failed tick (so it meets the same cursor).
\<close>

theorem persist_before_rearm:
  assumes "stored_job st = Some j" "in_progress j" "processed j < total j"
  shows "(case process_recipient e h j of
            Inl x \<Rightarrow>
              fire e (h\<lparr>put_ok := True\<rparr>) st =
                \<lparr>events = [], state = st\<lparr>alarm_at := None\<rparr>, raised = Some x, reply = None\<rparr>
          | Inr (evs, j') \<Rightarrow>
              list_all is_Dispatch evs
              \<and> fire e (h\<lparr>put_ok := True\<rparr>) st =
                  \<lparr>events = evs @ Put j' #
                      (if processed j' < total j
                       then [SetAlarm (date_now h 0 + interval j * 1000)] else []),
                   state = \<lparr>stored_job = Some j',
                            alarm_at = (if processed j' < total j
                                        then Some (date_now h 0 + interval j * 1000) else None)\<rparr>,
                   raised = None, reply = None\<rparr>
              \<and> events (fire e (h\<lparr>put_ok := False\<rparr>) st) = evs
              \<and> raised (fire e (h\<lparr>put_ok := False\<rparr>) st) = Some PutRejected)
         \<and> filter is_SetAlarm (events (fire e (h\<lparr>put_ok := False\<rparr>) st)) = []
         \<and> raised (fire e (h\<lparr>put_ok := False\<rparr>) st) \<noteq> None
         \<and> state (fire e (h\<lparr>put_ok := False\<rparr>) st) = st\<lparr>alarm_at := None\<rparr>
         \<and> fire e' h' (state (fire e (h\<lparr>put_ok := False\<rparr>) st)) = fire e' h' st"
proof (cases "process_recipient e h j")
  case (Inl x)
  have ok: "process_recipient e (h\<lparr>put_ok := True\<rparr>) j = Inl x"
    and ko: "process_recipient e (h\<lparr>put_ok := False\<rparr>) j = Inl x"
    using Inl by simp_all
  show ?thesis
    using Inl
    by (simp add: fire_processing_aborted [OF assms ok] fire_processing_aborted [OF assms ko])
next
  case (Inr p)
  obtain evs j' where p: "p = (evs, j')" by (cases p)
  have ok: "process_recipient e (h\<lparr>put_ok := True\<rparr>) j = Inr (evs, j')"
    and ko: "process_recipient e (h\<lparr>put_ok := False\<rparr>) j = Inr (evs, j')"
    using Inr p by simp_all
  have a: "put_ok (h\<lparr>put_ok := True\<rparr>)" and b: "\<not> put_ok (h\<lparr>put_ok := False\<rparr>)" by simp_all
  have d: "list_all is_Dispatch evs"
    using Inr p by (auto dest: process_recipient_events)
  have n: "filter is_SetAlarm evs = []"
    using d by (induction evs) (auto simp: is_Dispatch_def)
  show ?thesis
    using Inr p d n
    by (simp add: fire_processing_ok [OF assms ok a] fire_processing_rejected [OF assms ko b])
qed

text \<open>The first tick of a campaign with two recipients, with the write resolved and rejected.\<close>

theorem persist_before_rearm_witness:
  "(let st = state (init host_ok (campaign [JObj [(''Email'', JStr ''a@x.com'')], JNull]) idle)
    in (\<exists>p j'. events (fire env0 host_ok st) = [Dispatch p, Put j', SetAlarm 1000]
              \<and> stored_job (state (fire env0 host_ok st)) = Some j' \<and> processed j' = 1)
     \<and> raised (fire env0 host_down st) = Some PutRejected
     \<and> filter is_SetAlarm (events (fire env0 host_down st)) = []
     \<and> stored_job (state (fire env0 host_down st)) = stored_job st
     \<and> alarm_at (state (fire env0 host_down st)) = None
     \<and> fire env0 host_ok (state (fire env0 host_down st)) = fire env0 host_ok st)"
proof -
  let ?rs = "[JObj [(''Email'', JStr ''a@x.com'')], JNull]"
  let ?st = "state (init host_ok (campaign ?rs) idle)"
  let ?j = "new_job host_ok (campaign ?rs)"
  have s: "stored_job ?st = Some ?j" by (simp add: init_def host_ok_def Let_def)
  have j: "in_progress ?j" "processed ?j < total ?j" by (simp_all add: new_job_def campaign_def)
  have u: "host_ok\<lparr>put_ok := True\<rparr> = host_ok" "host_ok\<lparr>put_ok := False\<rparr> = host_down"
    by (simp_all add: host_ok_def host_down_def)
  have p: "process_recipient env0 host_ok ?j
   = Inr ([Dispatch \<lparr>to = [JStr ''a@x.com''], sender = JStr ''sender@x.com'', subject = ''Hi'',
         html_body = ''Hello a@x.com'', api_key = JUndefined\<rparr>],
      ?j\<lparr>success := success ?j + 1, processed := 1, current := JStr ''a@x.com''\<rparr>)"
    by (rule process_first_of_campaign) (simp_all add: new_job_def campaign_def)
  have v: "total ?j = 2" "interval ?j = 1" "date_now host_ok 0 = 0"
    by (simp_all add: new_job_def campaign_def host_ok_def)
  from persist_before_rearm [OF s j, of env0 host_ok env0 host_ok]
  show ?thesis unfolding u p Let_def by (simp add: v s)
qed

subsection \<open>A run in which every tick reaches its write, and every write resolves\<close>


subsection \<open>Invalid addresses\<close>






subsection \<open>Which keys carry the address\<close>

lemma valid_nonempty: "isValidEmail (JStr a) = Some True \<Longrightarrow> a \<noteq> []"
  by (auto simp: isValidEmail_def js_or_def email_regex_test_def)

lemma invalid_empty: "isValidEmail (JStr []) = Some False"
  by (simp add: isValidEmail_def js_or_def email_regex_test_def)

text \<open>
  Claim C3, as the code has it.  The address is read from the property \<open>Email\<close> and, when
  that is absent or falsy, from the property \<open>email\<close>; the lookup is case-sensitive, and
  an object without these two own properties resolves to the empty string, whatever
  other keys it has.  A recipient with a valid address string there is resolved to that
  address and the validation accepts it: the tick does not take the \<open>Invalid email\<close>
  branch, and adds a ledger entry only in its \<open>catch\<close> block, with the message of the
  exception thrown while rendering or dispatching.
\<close>

theorem recognised_spelling_is_resolved:
  assumes "get_prop r ''Email'' = JStr a
           \<or> (\<not> truthy (get_prop r ''Email'') \<and> get_prop r ''email'' = JStr a)"
    and "isValidEmail (JStr a) = Some True"
    and "processed j < length (recipients j)" and "recipients j ! processed j = r"
  shows "resolve_email r = JStr a
     \<and> isValidEmail (resolve_email r) = Some True
     \<and> (\<exists>evs j'. process_recipient e h j = Inr (evs, j')
           \<and> current j' = JStr a
           \<and> failures j' =
               failures j @
                 (case build_payload e j r (JStr a) of
                    None \<Rightarrow> [\<lparr>fail_i = processed j, fail_email = JStr a,
                                fail_error = take 180 type_error_message\<rparr>]
                  | Some p \<Rightarrow>
                      (case fetchSMTP2GO e h p of
                         Inr u \<Rightarrow> []
                       | Inl msg \<Rightarrow> [\<lparr>fail_i = processed j, fail_email = JStr a,
                                       fail_error = take 180 msg\<rparr>])))
     \<and> (\<forall>ps. ''Email'' \<notin> set (map fst ps) \<and> ''email'' \<notin> set (map fst ps)
             \<longrightarrow> resolve_email (JObj ps) = JStr [])"
proof -
  have ne: "a \<noteq> []" using assms(2) by (rule valid_nonempty)
  have res: "resolve_email r = JStr a"
    using assms(1) ne by (auto simp: resolve_email_def js_or_def)
  have none: "resolve_email (JObj ps) = JStr []"
    if "''Email'' \<notin> set (map fst ps) \<and> ''email'' \<notin> set (map fst ps)" for ps
  proof -
    from that have "map_of ps ''Email'' = None" "map_of ps ''email'' = None"
      by (simp_all add: map_of_eq_None_iff)
    then show ?thesis
      by (simp add: resolve_email_def js_or_def obj_get_def object_prototype_def)
  qed
  have pr: "\<exists>evs j'. process_recipient e h j = Inr (evs, j')
           \<and> current j' = JStr a
           \<and> failures j' =
               failures j @
                 (case build_payload e j r (JStr a) of
                    None \<Rightarrow> [\<lparr>fail_i = processed j, fail_email = JStr a,
                                fail_error = take 180 type_error_message\<rparr>]
                  | Some p \<Rightarrow>
                      (case fetchSMTP2GO e h p of
                         Inr u \<Rightarrow> []
                       | Inl msg \<Rightarrow> [\<lparr>fail_i = processed j, fail_email = JStr a,
                                       fail_error = take 180 msg\<rparr>]))"
    using res assms(2,3,4) ne
    by (simp add: process_recipient_def Let_def js_or_def split: sum.splits option.splits)
  show ?thesis using res assms(2) pr none by simp
qed

text \<open>
  A recipient that has the address under the lower-case key, and one that has it under
  another spelling.
\<close>

theorem recognised_spelling_is_resolved_witness:
  "resolve_email (JObj [(''email'', JStr ''a@x.com'')]) = JStr ''a@x.com''
   \<and> isValidEmail (resolve_email (JObj [(''email'', JStr ''a@x.com'')])) = Some True
   \<and> (\<exists>evs j'. process_recipient env0 host_ok
                (new_job host_ok (campaign [JObj [(''email'', JStr ''a@x.com'')]])) = Inr (evs, j')
        \<and> current j' = JStr ''a@x.com'' \<and> failures j' = [])
   \<and> resolve_email (JObj [(''eMail'', JStr ''a@x.com'')]) = JStr []"
proof -
  let ?r = "JObj [(''email'', JStr ''a@x.com'')]"
  let ?j = "new_job host_ok (campaign [?r])"
  have a: "get_prop ?r ''Email'' = JStr ''a@x.com''
           \<or> (\<not> truthy (get_prop ?r ''Email'') \<and> get_prop ?r ''email'' = JStr ''a@x.com'')"
    by (simp add: obj_get_def object_prototype_def)
  have b: "processed ?j < length (recipients ?j)" "recipients ?j ! processed ?j = ?r"
    by (simp_all add: new_job_def campaign_def)
  have c: "build_payload env0 ?j ?r (JStr ''a@x.com'') \<noteq> None"
  proof -
    have "processTemplate (JStr ''Hello {{Email}}'') (build_ctx [(''email'', JStr ''a@x.com'')])
            = Some ''Hello {{Email}}''"
      by code_simp
    then show ?thesis
      by (simp add: build_payload_def sender_part_def render_hi env0_def binding_def
          new_job_def campaign_def Let_def del: processTemplate.simps)
  qed
  have f: "''Email'' \<notin> set (map fst [(''eMail'', JStr ''a@x.com'')])
           \<and> ''email'' \<notin> set (map fst [(''eMail'', JStr ''a@x.com'')])"
    by simp
  from recognised_spelling_is_resolved [OF a valid_a b, of env0 host_ok] c f
  show ?thesis by (auto simp: fetch_ok new_job_def campaign_def)
qed

text \<open>
  The lookup is not case-insensitive: a recipient with a valid address under the key
  \<open>EMAIL\<close> is resolved to the empty string, and its tick records the failure
  \<open>Invalid email\<close> for \<open>(missing)\<close>.
\<close>

theorem uppercase_key_not_resolved:
  "isValidEmail (JStr ''a@x.com'') = Some True
   \<and> resolve_email (JObj [(''EMAIL'', JStr ''a@x.com'')]) = JStr []
   \<and> process_recipient env0 host_ok
       (new_job host_ok (campaign [JObj [(''EMAIL'', JStr ''a@x.com'')]]))
     = Inr ([], (new_job host_ok (campaign [JObj [(''EMAIL'', JStr ''a@x.com'')]]))
              \<lparr>failed := 1,
               failures := [\<lparr>fail_i = 0, fail_email = JStr ''(missing)'',
                             fail_error = ''Invalid email''\<rparr>],
               processed := 1, current := JStr ''N/A''\<rparr>)"
proof -
  have r: "resolve_email (JObj [(''EMAIL'', JStr ''a@x.com'')]) = JStr []"
    by (simp add: resolve_email_def js_or_def obj_get_def object_prototype_def)
  show ?thesis
    by (simp add: valid_a r)
       (simp add: process_recipient_def r invalid_empty js_or_def Let_def new_job_def campaign_def)
qed

end
